theory Spec2Isabelle
  imports Main
begin

section \<open>JavaScript strings and thrown values\<close>

text \<open>
  A JavaScript string is a sequence of UTF-16 code units. The messages of the program are
  Chinese text, so a string is modelled as the list of its code units; \<open>ascii\<close> turns an
  ASCII literal of the source into that representation.
\<close>

type_synonym jsstring = "nat list"

definition ascii :: "string \<Rightarrow> jsstring" where
  "ascii s = map of_char s"

text \<open>\<^verbatim>\<open>haystack.includes(needle)\<close>: the needle occurs as a contiguous run of code units.\<close>

definition startsWith :: "jsstring \<Rightarrow> jsstring \<Rightarrow> bool" where
  "startsWith haystack needle = (take (length needle) haystack = needle)"

fun includes_str :: "jsstring \<Rightarrow> jsstring \<Rightarrow> bool" where
  "includes_str [] needle = (needle = [])"
| "includes_str (c # cs) needle = (startsWith (c # cs) needle \<or> includes_str cs needle)"

text \<open>
  \<^verbatim>\<open>text.trim()\<close> removes the leading and trailing code units that ECMAScript counts as
  white space or line terminators.
\<close>

definition isWhiteSpace :: "nat \<Rightarrow> bool" where
  "isWhiteSpace c =
     (c = 9 \<or> c = 10 \<or> c = 11 \<or> c = 12 \<or> c = 13 \<or> c = 32 \<or> c = 160 \<or> c = 5760
      \<or> (8192 \<le> c \<and> c \<le> 8202) \<or> c = 8232 \<or> c = 8233 \<or> c = 8239 \<or> c = 8287
      \<or> c = 12288 \<or> c = 65279)"

definition trim :: "jsstring \<Rightarrow> jsstring" where
  "trim s = rev (dropWhile isWhiteSpace (rev (dropWhile isWhiteSpace s)))"

text \<open>
  \<^verbatim>\<open>s.split(',')\<close> with a one-unit separator, and the read \<^verbatim>\<open>parts[1]\<close>, which is
  \<^verbatim>\<open>undefined\<close> (here \<open>None\<close>) when the separator does not occur.
\<close>

fun split :: "nat \<Rightarrow> jsstring \<Rightarrow> jsstring list" where
  "split sep [] = [[]]"
| "split sep (c # cs) =
     (if c = sep then [] # split sep cs
      else (case split sep cs of
              [] \<Rightarrow> [[c]]
            | p # ps \<Rightarrow> (c # p) # ps))"

definition element :: "'a list \<Rightarrow> nat \<Rightarrow> 'a option" where
  "element xs i = (if i < length xs then Some (xs ! i) else None)"

text \<open>
  A thrown value. Everything the program catches comes from \<^verbatim>\<open>new Error(msg)\<close>, from the
  platform or from the SDK, so it is an object whose \<^verbatim>\<open>message\<close> property is a string
  or \<^verbatim>\<open>undefined\<close>.
\<close>

datatype js_error = JsError (message: "jsstring option")

definition new_Error :: "jsstring \<Rightarrow> js_error" where
  "new_Error msg = JsError (Some msg)"

text \<open>
  The operator \<^verbatim>\<open>a || b\<close> on an optional string: \<^verbatim>\<open>undefined\<close> and the empty string are
  falsy.
\<close>

definition or_else :: "jsstring option \<Rightarrow> jsstring \<Rightarrow> jsstring" where
  "or_else v d = (case v of None \<Rightarrow> d | Some s \<Rightarrow> if s = [] then d else s)"

subsection \<open>The message constants of the source\<close>

definition TIMEOUT_MESSAGE :: jsstring where
  "TIMEOUT_MESSAGE = [20998, 26512, 26102, 38388, 36807, 38271, 65292, 35831, 26816, 26597,
     32593, 32476, 21518, 37325, 35797, 12290]"

definition FALLBACK_MESSAGE :: jsstring where
  "FALLBACK_MESSAGE = [20998, 26512, 22833, 36133, 65292, 35831, 31245, 21518, 37325, 35797,
     12290]"

definition EMPTY_MESSAGE :: jsstring where
  "EMPTY_MESSAGE = [65, 80, 73, 32, 36820, 22238, 20869, 23481, 20026, 31354]"

definition NETWORK_MESSAGE :: jsstring where
  "NETWORK_MESSAGE = [32593, 32476, 35831, 27714, 22833, 36133, 65292, 35831, 26816, 26597,
     32593, 32476, 25110, 37325, 35797, 12290]"

definition MALFORMED_MESSAGE :: jsstring where
  "MALFORMED_MESSAGE = [35782, 21035, 39135, 26448, 22833, 36133, 65292, 35831, 30830, 20445,
     22270, 29255, 28165, 26224, 24182, 37325, 35797, 12290]"

definition CAMERA_MESSAGE :: jsstring where
  "CAMERA_MESSAGE = [26080, 27861, 35775, 38382, 25668, 20687, 22836, 12290, 35831, 26816,
     26597, 26435, 38480, 35774, 32622, 12290]"

definition PROMPT_TEXT :: jsstring where
  "PROMPT_TEXT = [20998, 26512, 36825, 24352, 22270, 29255, 20013, 30340, 39135, 26448, 65292,
     24182, 25552, 20379, 30456, 20851, 30340, 20943, 33026, 39135, 35889, 12290]"

section \<open>types: the documents of the analysis\<close>

datatype difficulty = Simple | Medium | Hard

record IngredientInfo =
  ingredient_name :: jsstring
  ingredient_info :: jsstring
  nutrition :: "jsstring option"
  caloriesPer100g :: "int option"

record Recipe =
  recipe_id :: jsstring
  recipe_name :: jsstring
  description :: jsstring
  recipe_difficulty :: difficulty
  prepTime :: jsstring
  allIngredients :: "jsstring list"
  instructions :: "jsstring list"
  calories :: "jsstring option"

record AnalysisResponse =
  ingredients :: "IngredientInfo list"
  recipes :: "Recipe list"

section \<open>JSON values and the response schema\<close>

text \<open>
  What \<^verbatim>\<open>JSON.parse\<close> can return. The cast \<^verbatim>\<open>as AnalysisResponse\<close> checks nothing, so the
  value that reaches the App is any of these. An object is the list of its properties, each
  key once.
\<close>

datatype json =
  JNull
  | JBool bool
  | JNumber int
  | JString jsstring
  | JArray "json list"
  | JObject "(jsstring \<times> json) list"


section \<open>geminiService: analyzeIngredientsAndGetRecipes\<close>

text \<open>
  The request handed to \<^verbatim>\<open>ai.models.generateContent\<close>. The system instruction and the
  response schema are two more constants of the request; no control flow of the program
  reads them and they are left out.
\<close>

record request =
  req_model :: jsstring
  req_mimeType :: jsstring
  req_data :: jsstring
  req_text :: jsstring
  req_responseMimeType :: jsstring

definition build_request :: "jsstring \<Rightarrow> request" where
  "build_request base64Image =
     \<lparr> req_model = ascii ''gemini-3-flash-preview'',
       req_mimeType = ascii ''image/jpeg'',
       req_data = base64Image,
       req_text = PROMPT_TEXT,
       req_responseMimeType = ascii ''application/json'' \<rparr>"

text \<open>
  How an asynchronous call ends: never, or at some time (milliseconds after the capture was
  handed over) with a value.
\<close>

datatype 'a behaviour = Never | SettlesAt nat 'a

text \<open>
  What \<^verbatim>\<open>await ai.models.generateContent(...)\<close> gives: a response, of which the program
  reads only \<^verbatim>\<open>response.text\<close> (a string or \<^verbatim>\<open>undefined\<close>), or a rejection.
\<close>

datatype sdk_settled = Responds "jsstring option" | Rejects js_error

text \<open>
  The SDK and the engine, as the function meets them: the constructor
  \<^verbatim>\<open>new GoogleGenAI({ apiKey })\<close> may throw, \<^verbatim>\<open>generateContent\<close> is called on the client
  (which holds the key it was built with), and \<^verbatim>\<open>JSON.parse\<close> returns the parsed document
  or throws. The parsed document is opaque to the program: it is a type parameter.
\<close>

record 'doc sdk =
  GoogleGenAI_throws :: "jsstring option \<Rightarrow> js_error option"
  generateContent :: "jsstring option \<Rightarrow> request \<Rightarrow> sdk_settled behaviour"
  JSON_parse :: "jsstring \<Rightarrow> js_error + 'doc"

text \<open>
  The process: its environment variable \<^verbatim>\<open>process.env.API_KEY\<close>, and the log of the
  configurations with which \<^verbatim>\<open>GoogleGenAI\<close> was instantiated and of the requests sent
  (each with the key of the client that sent it).
\<close>

record process =
  API_KEY :: "jsstring option"
  GoogleGenAI_calls :: "jsstring option list"
  generateContent_calls :: "(jsstring option \<times> request) list"

text \<open>The body of the \<^verbatim>\<open>try\<close> block once \<^verbatim>\<open>generateContent\<close> has settled.\<close>

definition try_block :: "(jsstring \<Rightarrow> js_error + 'doc) \<Rightarrow> sdk_settled \<Rightarrow> js_error + 'doc" where
  "try_block parse r =
     (case r of
        Rejects e \<Rightarrow> Inl e
      | Responds None \<Rightarrow> Inl (new_Error EMPTY_MESSAGE)
      | Responds (Some t) \<Rightarrow> if t = [] then Inl (new_Error EMPTY_MESSAGE) else parse (trim t))"

text \<open>
  The \<^verbatim>\<open>catch\<close> block: it always throws, one of two messages, chosen by the test
  \<^verbatim>\<open>error.message?.includes('xhr error') || error.message?.includes('500')\<close>.
\<close>

definition mentions_network :: "js_error \<Rightarrow> bool" where
  "mentions_network err =
     (case message err of
        None \<Rightarrow> False
      | Some m \<Rightarrow> includes_str m (ascii ''xhr error'') \<or> includes_str m (ascii ''500''))"

definition catch_block :: "js_error \<Rightarrow> js_error" where
  "catch_block err =
     (if mentions_network err then new_Error NETWORK_MESSAGE else new_Error MALFORMED_MESSAGE)"

definition settle_analysis :: "(jsstring \<Rightarrow> js_error + 'doc) \<Rightarrow> sdk_settled \<Rightarrow> js_error + 'doc" where
  "settle_analysis parse r =
     (case try_block parse r of
        Inr d \<Rightarrow> Inr d
      | Inl e \<Rightarrow> Inl (catch_block e))"

text \<open>
  The whole function. The client is built outside the \<^verbatim>\<open>try\<close>, so a throwing
  constructor rejects the returned promise at once, with the constructor's own error.
\<close>

definition analyzeIngredientsAndGetRecipes ::
  "'doc sdk \<Rightarrow> process \<Rightarrow> jsstring \<Rightarrow> (js_error + 'doc) behaviour \<times> process" where
  "analyzeIngredientsAndGetRecipes lib p base64Image =
     (let apiKey = API_KEY p;
          p1 = p\<lparr>GoogleGenAI_calls := GoogleGenAI_calls p @ [apiKey]\<rparr>
      in case GoogleGenAI_throws lib apiKey of
           Some e \<Rightarrow> (SettlesAt 0 (Inl e), p1)
         | None \<Rightarrow>
             (let req = build_request base64Image;
                  p2 = p1\<lparr>generateContent_calls := generateContent_calls p1 @ [(apiKey, req)]\<rparr>
              in case generateContent lib apiKey req of
                   Never \<Rightarrow> (Never, p2)
                 | SettlesAt t r \<Rightarrow> (SettlesAt t (settle_analysis (JSON_parse lib) r), p2)))"

section \<open>App: handleCapture\<close>

record 'doc app =
  isProcessing :: bool
  result :: "'doc option"
  error :: "jsstring option"

text \<open>
  A promise: pending (\<open>None\<close>) or settled, fulfilled (\<open>Inr\<close>) or rejected (\<open>Inl\<close>); and
  whether a reaction has been registered on it. Settling a settled promise does nothing; a
  promise rejected with no reaction registered is an unhandled rejection.
\<close>

record 'a promise =
  settled :: "(js_error + 'a) option"
  handled :: bool

text \<open>
  What the host is shown: \<^verbatim>\<open>setResult(data)\<close> is a success, \<^verbatim>\<open>setError(msg)\<close> a failure.
  The session logs each with the time of the call.
\<close>

datatype 'doc outcome = Success 'doc | Failure jsstring

record 'doc session =
  app :: "'doc app"
  analysisPromise :: "'doc promise"
  timeoutPromise :: "'doc promise"
  racePromise :: "'doc promise"
  timerDelay :: nat
  delivered :: "(nat \<times> 'doc outcome) list"
  unhandledRejections :: "js_error list"

definition DEADLINE_MS :: nat where
  "DEADLINE_MS = 35000"

text \<open>
  The synchronous part of \<^verbatim>\<open>handleCapture\<close>, up to the \<^verbatim>\<open>await\<close>: the two state
  updates, the timer, the analysis call (its promise is pending), \<^verbatim>\<open>Promise.race\<close>, which
  registers a reaction on both promises, and the \<^verbatim>\<open>await\<close>, which registers one on the
  race.
\<close>

definition handleCapture_begin :: "'doc app \<Rightarrow> 'doc session" where
  "handleCapture_begin a =
     \<lparr> app = a\<lparr>isProcessing := True, error := None\<rparr>,
       analysisPromise = \<lparr>settled = None, handled = True\<rparr>,
       timeoutPromise = \<lparr>settled = None, handled = True\<rparr>,
       racePromise = \<lparr>settled = None, handled = True\<rparr>,
       timerDelay = DEADLINE_MS,
       delivered = [],
       unhandledRejections = [] \<rparr>"

text \<open>The code after the \<^verbatim>\<open>await\<close>: \<^verbatim>\<open>try\<close>, \<^verbatim>\<open>catch\<close> and \<^verbatim>\<open>finally\<close>.\<close>

definition resume :: "nat \<Rightarrow> js_error + 'doc \<Rightarrow> 'doc session \<Rightarrow> 'doc session" where
  "resume now r s =
     (case r of
        Inr d \<Rightarrow>
          s\<lparr>app := (app s)\<lparr>result := Some d, isProcessing := False\<rparr>,
            delivered := delivered s @ [(now, Success d)]\<rparr>
      | Inl err \<Rightarrow>
          (let msg = or_else (message err) FALLBACK_MESSAGE
           in s\<lparr>app := (app s)\<lparr>error := Some msg, isProcessing := False\<rparr>,
                delivered := delivered s @ [(now, Failure msg)]\<rparr>))"

text \<open>A rejection that nobody reacts to is reported by the engine.\<close>

definition report_unhandled :: "js_error + 'doc \<Rightarrow> 'doc session \<Rightarrow> 'doc session" where
  "report_unhandled r s =
     (case r of
        Inl e \<Rightarrow> s\<lparr>unhandledRejections := unhandledRejections s @ [e]\<rparr>
      | Inr d \<Rightarrow> s)"

text \<open>
  The reaction \<^verbatim>\<open>Promise.race\<close> registered on its two arguments: it settles the race
  promise if that is still pending, and the awaiting code resumes.
\<close>

definition race_reaction :: "nat \<Rightarrow> js_error + 'doc \<Rightarrow> 'doc session \<Rightarrow> 'doc session" where
  "race_reaction now r s =
     (case settled (racePromise s) of
        Some r0 \<Rightarrow> s
      | None \<Rightarrow>
          (let s1 = s\<lparr>racePromise := (racePromise s)\<lparr>settled := Some r\<rparr>\<rparr>
           in if handled (racePromise s) then resume now r s1 else report_unhandled r s1))"

text \<open>The two events of a session: the analysis promise settles, the timer fires.\<close>

datatype 'doc event = AnalysisSettled "js_error + 'doc" | TimerFired

definition analysis_settles :: "nat \<Rightarrow> js_error + 'doc \<Rightarrow> 'doc session \<Rightarrow> 'doc session" where
  "analysis_settles now r s =
     (case settled (analysisPromise s) of
        Some r0 \<Rightarrow> s
      | None \<Rightarrow>
          (let s1 = s\<lparr>analysisPromise := (analysisPromise s)\<lparr>settled := Some r\<rparr>\<rparr>
           in if handled (analysisPromise s) then race_reaction now r s1
              else report_unhandled r s1))"

definition timer_fires :: "nat \<Rightarrow> 'doc session \<Rightarrow> 'doc session" where
  "timer_fires now s =
     (case settled (timeoutPromise s) of
        Some r0 \<Rightarrow> s
      | None \<Rightarrow>
          (let r = Inl (new_Error TIMEOUT_MESSAGE);
               s1 = s\<lparr>timeoutPromise := (timeoutPromise s)\<lparr>settled := Some r\<rparr>\<rparr>
           in if handled (timeoutPromise s) then race_reaction now r s1
              else report_unhandled r s1))"

fun step :: "nat \<times> 'doc event \<Rightarrow> 'doc session \<Rightarrow> 'doc session" where
  "step (now, AnalysisSettled r) s = analysis_settles now r s"
| "step (now, TimerFired) s = timer_fires now s"

text \<open>
  The event loop orders the two events by their time. When both are due in the same
  millisecond the order is the engine's choice: \<open>analysisFirst\<close>.
\<close>

definition settles_before_deadline :: "'a behaviour \<Rightarrow> bool \<Rightarrow> nat \<Rightarrow> bool" where
  "settles_before_deadline beh analysisFirst delay =
     (case beh of
        Never \<Rightarrow> False
      | SettlesAt t r \<Rightarrow> t < delay \<or> (t = delay \<and> analysisFirst))"

definition schedule ::
  "(js_error + 'doc) behaviour \<Rightarrow> bool \<Rightarrow> nat \<Rightarrow> (nat \<times> 'doc event) list" where
  "schedule beh analysisFirst delay =
     (case beh of
        Never \<Rightarrow> [(delay, TimerFired)]
      | SettlesAt t r \<Rightarrow>
          if settles_before_deadline beh analysisFirst delay
          then [(t, AnalysisSettled r), (delay, TimerFired)]
          else [(delay, TimerFired), (t, AnalysisSettled r)])"

definition run_session :: "(js_error + 'doc) behaviour \<Rightarrow> bool \<Rightarrow> 'doc app \<Rightarrow> 'doc session" where
  "run_session beh analysisFirst a =
     (let s0 = handleCapture_begin a
      in fold step (schedule beh analysisFirst (timerDelay s0)) s0)"

text \<open>One whole call of \<^verbatim>\<open>handleCapture(base64Image)\<close>, run to the end of its session.\<close>

definition handleCapture ::
  "'doc sdk \<Rightarrow> bool \<Rightarrow> process \<Rightarrow> 'doc app \<Rightarrow> jsstring \<Rightarrow> 'doc session \<times> process" where
  "handleCapture lib analysisFirst p a base64Image =
     (case analyzeIngredientsAndGetRecipes lib p base64Image of
        (beh, p') \<Rightarrow> (run_session beh analysisFirst a, p'))"

text \<open>\<^verbatim>\<open>handleReset\<close>.\<close>

definition handleReset :: "'doc app \<Rightarrow> 'doc app" where
  "handleReset a = a\<lparr>result := None, error := None\<rparr>"

section \<open>CameraView\<close>

subsection \<open>The device interface\<close>

text \<open>
  The argument of \<^verbatim>\<open>navigator.mediaDevices.getUserMedia\<close>: \<^verbatim>\<open>video\<close> is \<^verbatim>\<open>true\<close> or
  an object of ideal values, \<^verbatim>\<open>audio\<close> a flag (the fields \<open>c_video\<close> and \<open>c_audio\<close>).
\<close>

datatype video_constraint =
  VideoTrue
  | VideoIdeal (facingMode_ideal: jsstring) (width_ideal: nat) (height_ideal: nat)

record constraints =
  c_video :: video_constraint
  c_audio :: bool

definition PREFERRED_CONSTRAINTS :: constraints where
  "PREFERRED_CONSTRAINTS = \<lparr> c_video = VideoIdeal (ascii ''environment'') 1920 1080, c_audio = False \<rparr>"

definition SIMPLE_CONSTRAINTS :: constraints where
  "SIMPLE_CONSTRAINTS = \<lparr> c_video = VideoTrue, c_audio = False \<rparr>"

text \<open>
  What awaiting \<^verbatim>\<open>getUserMedia\<close> gives: a new stream with some number of tracks, all
  live, or a rejection (permission denied, no device, no \<^verbatim>\<open>mediaDevices\<close> at all).
\<close>

datatype gum_result = Granted nat | Denied js_error

text \<open>
  The streams acquired so far are kept in a store: a stream handle is an index into it, and
  a stream is the list of its tracks, each live (\<open>True\<close>) or stopped. Nothing but
  \<^verbatim>\<open>track.stop()\<close> ends a track.
\<close>

type_synonym stream_handle = nat

definition live :: "bool list \<Rightarrow> bool" where
  "live tracks = list_ex (\<lambda>t. t) tracks"

record video_element =
  srcObject :: "stream_handle option"
  videoWidth :: nat
  videoHeight :: nat
  readyState :: nat
  onplaying :: bool
  onloadedmetadata :: bool

record canvas_element =
  canvas_width :: nat
  canvas_height :: nat

definition fresh_video :: video_element where
  "fresh_video = \<lparr> srcObject = None, videoWidth = 0, videoHeight = 0, readyState = 0,
     onplaying = False, onloadedmetadata = False \<rparr>"

definition fresh_canvas :: canvas_element where
  "fresh_canvas = \<lparr> canvas_width = 300, canvas_height = 150 \<rparr>"

subsection \<open>The component's state\<close>

text \<open>
  The four state variables of the component (its \<^verbatim>\<open>error\<close> is \<open>cameraError\<close> here, the
  name \<open>error\<close> being taken by the App's), its two refs, the store of streams, the number
  of \<^verbatim>\<open>startCamera\<close> calls suspended at an \<^verbatim>\<open>await\<close>, and two logs: the calls of
  \<^verbatim>\<open>getUserMedia\<close> and the calls of the \<^verbatim>\<open>onCapture\<close> prop.
\<close>

record camera_view =
  cameraError :: "jsstring option"
  streamActive :: bool
  isFlashing :: bool
  capturedImage :: "jsstring option"
  videoRef :: "video_element option"
  canvasRef :: "canvas_element option"
  streams :: "bool list list"
  pendingStarts :: nat
  getUserMedia_calls :: "constraints list"
  onCapture_calls :: "jsstring list"

text \<open>
  What React commits for a state: the error panel replaces everything when \<^verbatim>\<open>error\<close> is
  set; otherwise the canvas is mounted, and the video element is mounted only while there
  is no captured image. A newly mounted element is fresh; a mounted one is kept.
\<close>

definition render :: "camera_view \<Rightarrow> camera_view" where
  "render s =
     s\<lparr>videoRef :=
         (if cameraError s = None \<and> capturedImage s = None
          then (case videoRef s of None \<Rightarrow> Some fresh_video | Some v \<Rightarrow> Some v)
          else None),
       canvasRef :=
         (if cameraError s = None
          then (case canvasRef s of None \<Rightarrow> Some fresh_canvas | Some c \<Rightarrow> Some c)
          else None)\<rparr>"

definition rendered :: "camera_view \<Rightarrow> bool" where
  "rendered s =
     (((videoRef s \<noteq> None) = (cameraError s = None \<and> capturedImage s = None))
      \<and> ((canvasRef s \<noteq> None) = (cameraError s = None)))"

subsection \<open>startCamera\<close>

text \<open>The synchronous start of the call, up to the first \<^verbatim>\<open>await\<close>.\<close>

definition startCamera_begin :: "camera_view \<Rightarrow> camera_view" where
  "startCamera_begin s = s\<lparr>capturedImage := None, pendingStarts := Suc (pendingStarts s)\<rparr>"

text \<open>
  The inner \<^verbatim>\<open>try\<close>/\<^verbatim>\<open>catch\<close>: the preferred request and, when it is rejected, the
  simple one. The result is the new stream's handle or the last rejection.
\<close>

definition request_stream ::
  "(constraints \<Rightarrow> gum_result) \<Rightarrow> constraints \<Rightarrow> camera_view \<Rightarrow> (js_error + stream_handle) \<times> camera_view" where
  "request_stream gum c s =
     (let s1 = s\<lparr>getUserMedia_calls := getUserMedia_calls s @ [c]\<rparr>
      in case gum c of
           Granted n \<Rightarrow> (Inr (length (streams s1)), s1\<lparr>streams := streams s1 @ [replicate n True]\<rparr>)
         | Denied e \<Rightarrow> (Inl e, s1))"

definition acquire ::
  "(constraints \<Rightarrow> gum_result) \<Rightarrow> camera_view \<Rightarrow> (js_error + stream_handle) \<times> camera_view" where
  "acquire gum s =
     (case request_stream gum PREFERRED_CONSTRAINTS s of
        (Inr stream, s1) \<Rightarrow> (Inr stream, s1)
      | (Inl e, s1) \<Rightarrow> request_stream gum SIMPLE_CONSTRAINTS s1)"

text \<open>
  The block \<^verbatim>\<open>if (videoRef.current) { ... }\<close>: the stream becomes the element's source,
  the two handlers are installed, and a ready element makes the stream active at once.
\<close>

definition attach :: "stream_handle \<Rightarrow> camera_view \<Rightarrow> camera_view" where
  "attach stream s =
     (case videoRef s of
        None \<Rightarrow> s
      | Some v \<Rightarrow>
          (let v1 = v\<lparr>srcObject := Some stream, onplaying := True, onloadedmetadata := True\<rparr>;
               s1 = s\<lparr>videoRef := Some v1\<rparr>
           in if 2 \<le> readyState v1 then s1\<lparr>streamActive := True\<rparr> else s1))"

text \<open>The rest of the call, from the first \<^verbatim>\<open>await\<close> on, with the outer \<^verbatim>\<open>catch\<close>.\<close>

definition startCamera_end :: "(constraints \<Rightarrow> gum_result) \<Rightarrow> camera_view \<Rightarrow> camera_view" where
  "startCamera_end gum s =
     (case acquire gum s of
        (Inr stream, s1) \<Rightarrow> (attach stream s1)\<lparr>cameraError := None, pendingStarts := pendingStarts s1 - 1\<rparr>
      | (Inl e, s1) \<Rightarrow> s1\<lparr>cameraError := Some CAMERA_MESSAGE, pendingStarts := pendingStarts s1 - 1\<rparr>)"

text \<open>
  One call of \<^verbatim>\<open>startCamera\<close> run to its end with no other handler in between: React
  commits the state set at the start while the call waits for the device. This is one call
  seen alone; the call itself is suspended at each \<^verbatim>\<open>await\<close>, and other handlers, a
  second call among them, can run before it resumes. The pieces between the suspensions
  follow.
\<close>

definition startCamera :: "(constraints \<Rightarrow> gum_result) \<Rightarrow> camera_view \<Rightarrow> camera_view" where
  "startCamera gum s = startCamera_end gum (render (startCamera_begin s))"

text \<open>
  The call as far as it runs when it is made: the synchronous start and the preferred
  request, issued to the device; then the call is suspended at the first \<^verbatim>\<open>await\<close>.
\<close>

definition startCamera_called :: "camera_view \<Rightarrow> camera_view" where
  "startCamera_called s =
     (startCamera_begin s)\<lparr>getUserMedia_calls := getUserMedia_calls s @ [PREFERRED_CONSTRAINTS]\<rparr>"

text \<open>
  An \<^verbatim>\<open>await\<close> returns a stream of \<open>n\<close> tracks: the call runs to its end, through the
  block on \<^verbatim>\<open>videoRef.current\<close> and \<^verbatim>\<open>setError(null)\<close>.
\<close>

definition stream_granted :: "nat \<Rightarrow> camera_view \<Rightarrow> camera_view" where
  "stream_granted n s =
     (attach (length (streams s)) (s\<lparr>streams := streams s @ [replicate n True]\<rparr>))
       \<lparr>cameraError := None, pendingStarts := pendingStarts s - 1\<rparr>"

text \<open>
  The device answers the preferred request. A rejection is caught by the inner
  \<^verbatim>\<open>catch\<close>, which issues the simple request; the call is suspended again, at the second
  \<^verbatim>\<open>await\<close>.
\<close>

definition preferred_answered :: "gum_result \<Rightarrow> camera_view \<Rightarrow> camera_view" where
  "preferred_answered r s =
     (case r of
        Granted n \<Rightarrow> stream_granted n s
      | Denied e \<Rightarrow> s\<lparr>getUserMedia_calls := getUserMedia_calls s @ [SIMPLE_CONSTRAINTS]\<rparr>)"

text \<open>The device answers the simple request. A rejection reaches the outer \<^verbatim>\<open>catch\<close>.\<close>

definition simple_answered :: "gum_result \<Rightarrow> camera_view \<Rightarrow> camera_view" where
  "simple_answered r s =
     (case r of
        Granted n \<Rightarrow> stream_granted n s
      | Denied e \<Rightarrow> s\<lparr>cameraError := Some CAMERA_MESSAGE, pendingStarts := pendingStarts s - 1\<rparr>)"

subsection \<open>The video element's events and the effect\<close>

definition handleVideoPlay :: "camera_view \<Rightarrow> camera_view" where
  "handleVideoPlay s = s\<lparr>streamActive := True\<rparr>"

definition video_playing :: "camera_view \<Rightarrow> camera_view" where
  "video_playing s =
     (case videoRef s of
        None \<Rightarrow> s
      | Some v \<Rightarrow> if onplaying v then handleVideoPlay s else s)"

text \<open>\<^verbatim>\<open>onloadedmetadata\<close> calls \<^verbatim>\<open>play()\<close>; when that is rejected the stream is made active.\<close>

definition video_loadedmetadata :: "bool \<Rightarrow> camera_view \<Rightarrow> camera_view" where
  "video_loadedmetadata play_rejected s =
     (case videoRef s of
        None \<Rightarrow> s
      | Some v \<Rightarrow> if onloadedmetadata v \<and> play_rejected then s\<lparr>streamActive := True\<rparr> else s)"

text \<open>\<^verbatim>\<open>stream.getTracks().forEach(track => track.stop())\<close>.\<close>

definition stopTracks :: "stream_handle \<Rightarrow> camera_view \<Rightarrow> camera_view" where
  "stopTracks stream s =
     (if stream < length (streams s)
      then s\<lparr>streams := (streams s)[stream := map (\<lambda>t. False) (streams s ! stream)]\<rparr>
      else s)"

text \<open>
  The effect on \<^verbatim>\<open>isProcessing\<close> and its cleanup. The effect calls \<^verbatim>\<open>startCamera()\<close> and
  does not wait for it.
\<close>

definition effect_cleanup :: "camera_view \<Rightarrow> camera_view" where
  "effect_cleanup s =
     (case videoRef s of
        None \<Rightarrow> s
      | Some v \<Rightarrow> (case srcObject v of None \<Rightarrow> s | Some stream \<Rightarrow> stopTracks stream s))"

definition effect :: "bool \<Rightarrow> camera_view \<Rightarrow> camera_view" where
  "effect processing s = (if \<not> processing then startCamera_called s else s)"

subsection \<open>capturePhoto\<close>

text \<open>
  What the canvas does in one call: whether \<^verbatim>\<open>getContext('2d')\<close> returns a context,
  whether \<^verbatim>\<open>drawImage\<close> throws, and what \<^verbatim>\<open>toDataURL('image/jpeg', 0.85)\<close> returns or
  throws.
\<close>

record canvas_env =
  getContext_2d :: bool
  drawImage_throws :: "js_error option"
  toDataURL :: "js_error + jsstring"

text \<open>
  The body of the \<^verbatim>\<open>try\<close> block; \<open>Inl\<close> is a throw, which leaves the state as it was.
  In \<open>capturePhoto\<close> and \<open>effect\<close> the argument \<open>processing\<close> is the \<^verbatim>\<open>isProcessing\<close> prop.
\<close>

definition capture_body :: "canvas_env \<Rightarrow> video_element \<Rightarrow> camera_view \<Rightarrow> js_error + camera_view" where
  "capture_body env video s =
     (case drawImage_throws env of
        Some e \<Rightarrow> Inl e
      | None \<Rightarrow>
          (case toDataURL env of
             Inl e \<Rightarrow> Inl e
           | Inr dataUrl \<Rightarrow>
               (let s1 = s\<lparr>capturedImage := Some dataUrl\<rparr>;
                    base64 = element (split 44 dataUrl) 1;
                    s2 = (case base64 of
                            None \<Rightarrow> s1
                          | Some b \<Rightarrow>
                              if b \<noteq> [] then s1\<lparr>onCapture_calls := onCapture_calls s1 @ [b]\<rparr>
                              else s1)
                in case srcObject video of
                     None \<Rightarrow> Inr s2
                   | Some stream \<Rightarrow> Inr ((stopTracks stream s2)\<lparr>streamActive := False\<rparr>))))"

definition capturePhoto :: "canvas_env \<Rightarrow> bool \<Rightarrow> camera_view \<Rightarrow> camera_view" where
  "capturePhoto env processing s =
     (if processing then s
      else case videoRef s of
        None \<Rightarrow> s
      | Some video \<Rightarrow>
          (case canvasRef s of
             None \<Rightarrow> s
           | Some canvas \<Rightarrow>
               if \<not> streamActive s then s
               else
                 (let width = videoWidth video; height = videoHeight video
                  in if width = 0 \<or> height = 0 then s
                     else
                       (let s1 = s\<lparr>isFlashing := True,
                                    canvasRef := Some (canvas\<lparr>canvas_width := width,
                                                              canvas_height := height\<rparr>)\<rparr>
                        in if \<not> getContext_2d env then s1
                           else (case capture_body env video s1 of
                                   Inl err \<Rightarrow> s1
                                 | Inr s2 \<Rightarrow> s2)))))"

text \<open>The timer set by \<^verbatim>\<open>capturePhoto\<close>, 150 ms later.\<close>

definition flash_timeout :: "camera_view \<Rightarrow> camera_view" where
  "flash_timeout s = s\<lparr>isFlashing := False\<rparr>"

subsection \<open>The capture phase of a state\<close>

datatype CapturePhase = Uninitialized | Requesting | Streaming | Captured | Failed

definition phase_of :: "camera_view \<Rightarrow> CapturePhase" where
  "phase_of s =
     (if cameraError s \<noteq> None then Failed
      else if capturedImage s \<noteq> None then Captured
      else if streamActive s then Streaming
      else if 0 < pendingStarts s then Requesting
      else Uninitialized)"

definition frame_empty :: "camera_view \<Rightarrow> bool" where
  "frame_empty s =
     (case videoRef s of
        None \<Rightarrow> True
      | Some v \<Rightarrow> videoWidth v = 0 \<or> videoHeight v = 0)"

definition live_streams :: "camera_view \<Rightarrow> bool list list" where
  "live_streams s = filter live (streams s)"

subsection \<open>The platform delivering frames\<close>

text \<open>
  The element's \<^verbatim>\<open>videoWidth\<close>, \<^verbatim>\<open>videoHeight\<close> and \<^verbatim>\<open>readyState\<close> are set by the
  platform as the attached stream delivers frames.
\<close>

definition video_data :: "nat \<Rightarrow> nat \<Rightarrow> nat \<Rightarrow> camera_view \<Rightarrow> camera_view" where
  "video_data w h ready s =
     (case videoRef s of
        None \<Rightarrow> s
      | Some v \<Rightarrow>
          (case srcObject v of
             None \<Rightarrow> s
           | Some stream \<Rightarrow>
               s\<lparr>videoRef := Some (v\<lparr>videoWidth := w, videoHeight := h, readyState := ready\<rparr>)\<rparr>))"

subsection \<open>The component as a sequence of events\<close>

text \<open>
  Everything that runs on one mounted component, one handler or continuation at a time: the effect
  and the retry button (the two places that call \<^verbatim>\<open>startCamera\<close>), the device answering
  a request of a suspended call, React committing, the shutter, the video element's events,
  the cleanup of the effect and the flash timer. A device answer resumes a call only when
  one is suspended. The state counts the suspended calls and does not record at which of
  its two \<^verbatim>\<open>await\<close>s each one waits, so the sequences of events include every order in
  which the device can answer.
\<close>

datatype camera_event =
  EffectRan bool
  | RetryClicked
  | PreferredAnswered gum_result
  | SimpleAnswered gum_result
  | Committed
  | ShutterClicked canvas_env bool
  | VideoPlaying
  | VideoLoadedMetadata bool
  | VideoData nat nat nat
  | EffectCleanup
  | FlashTimeout

fun camera_step :: "camera_event \<Rightarrow> camera_view \<Rightarrow> camera_view" where
  "camera_step (EffectRan processing) s = effect processing s"
| "camera_step RetryClicked s = startCamera_called (s\<lparr>cameraError := None\<rparr>)"
| "camera_step (PreferredAnswered r) s = (if pendingStarts s = 0 then s else preferred_answered r s)"
| "camera_step (SimpleAnswered r) s = (if pendingStarts s = 0 then s else simple_answered r s)"
| "camera_step Committed s = render s"
| "camera_step (ShutterClicked env processing) s = capturePhoto env processing s"
| "camera_step VideoPlaying s = video_playing s"
| "camera_step (VideoLoadedMetadata play_rejected) s = video_loadedmetadata play_rejected s"
| "camera_step (VideoData w h ready) s = video_data w h ready s"
| "camera_step EffectCleanup s = effect_cleanup s"
| "camera_step FlashTimeout s = flash_timeout s"

text \<open>The events that call \<^verbatim>\<open>startCamera\<close>.\<close>

fun is_start_call :: "camera_event \<Rightarrow> bool" where
  "is_start_call (EffectRan processing) = (\<not> processing)"
| "is_start_call RetryClicked = True"
| "is_start_call e = False"

text \<open>
  A sequence of events in which \<^verbatim>\<open>startCamera\<close> is called only when no earlier call is
  suspended and no acquired stream has a live track.
\<close>

fun calls_apart :: "camera_event list \<Rightarrow> camera_view \<Rightarrow> bool" where
  "calls_apart [] s = True"
| "calls_apart (e # es) s =
     ((if is_start_call e then pendingStarts s = 0 \<and> live_streams s = [] else True)
      \<and> calls_apart es (camera_step e s))"

section \<open>Concrete inputs\<close>

text \<open>
  The inputs at which the theorems below are instantiated. The document is what
  \<^verbatim>\<open>JSON.parse\<close> returns for \<open>sample_text\<close>, the text
  \<^verbatim>\<open>{"ingredients":[{"name":"tomato","info":"fresh","caloriesPer100g":18}],"recipes":[]}\<close>;
  \<open>sample_parse\<close> is \<^verbatim>\<open>JSON.parse\<close> on that text, on the empty text and on short texts
  whose first character cannot begin a JSON value, for which it throws the engine's error;
  on other texts it is not \<^verbatim>\<open>JSON.parse\<close>, and nothing below applies it to one.
\<close>

definition sample_text :: jsstring where
  "sample_text = [123, 34, 105, 110, 103, 114, 101, 100, 105, 101, 110, 116, 115, 34, 58, 91,
     123, 34, 110, 97, 109, 101, 34, 58, 34, 116, 111, 109, 97, 116, 111, 34, 44, 34, 105, 110,
     102, 111, 34, 58, 34, 102, 114, 101, 115, 104, 34, 44, 34, 99, 97, 108, 111, 114, 105, 101,
     115, 80, 101, 114, 49, 48, 48, 103, 34, 58, 49, 56, 125, 93, 44, 34, 114, 101, 99, 105, 112,
     101, 115, 34, 58, 91, 93, 125]"

definition sample_document :: AnalysisResponse where
  "sample_document =
     \<lparr> ingredients =
         [\<lparr> ingredient_name = ascii ''tomato'', ingredient_info = ascii ''fresh'',
            nutrition = None, caloriesPer100g = Some 18 \<rparr>],
       recipes = [] \<rparr>"

text \<open>
  The \<^verbatim>\<open>SyntaxError\<close> of \<^verbatim>\<open>JSON.parse\<close> (V8) for the empty text and for a short text whose
  first character cannot begin a JSON value: the message names that character and quotes the
  text, as in \<^verbatim>\<open>Unexpected token '<', "<html>" is not valid JSON\<close>.
\<close>

definition syntax_error :: "jsstring \<Rightarrow> js_error" where
  "syntax_error s =
     (case s of
        [] \<Rightarrow> new_Error (ascii ''Unexpected end of JSON input'')
      | c # cs \<Rightarrow>
          new_Error (ascii ''Unexpected token '' @ [39, c, 39] @ ascii '', '' @ [34] @ s @ [34]
                     @ ascii '' is not valid JSON''))"

definition sample_parse :: "jsstring \<Rightarrow> js_error + AnalysisResponse" where
  "sample_parse s = (if s = sample_text then Inr sample_document else Inl (syntax_error s))"



definition sample_sdk :: "sdk_settled behaviour \<Rightarrow> AnalysisResponse sdk" where
  "sample_sdk beh =
     \<lparr> GoogleGenAI_throws = (\<lambda>key. None),
       generateContent = (\<lambda>key req. beh),
       JSON_parse = sample_parse \<rparr>"

definition sample_process :: process where
  "sample_process =
     \<lparr> API_KEY = Some (ascii ''key-1''), GoogleGenAI_calls = [], generateContent_calls = [] \<rparr>"

text \<open>The App's state at its first render, from the three \<^verbatim>\<open>useState\<close> calls.\<close>

definition initial_app :: "'doc app" where
  "initial_app = \<lparr> isProcessing = False, result = None, error = None \<rparr>"

text \<open>The component before its first commit, from its \<^verbatim>\<open>useState\<close> and \<^verbatim>\<open>useRef\<close> calls.\<close>

definition initial_camera :: camera_view where
  "initial_camera =
     \<lparr> cameraError = None, streamActive = False, isFlashing = False, capturedImage = None,
       videoRef = None, canvasRef = None, streams = [], pendingStarts = 0,
       getUserMedia_calls = [], onCapture_calls = [] \<rparr>"

text \<open>
  A component that streams: mounted, started on a device that grants the preferred request
  with one track, the element playing 1920 by 1080 frames.
\<close>

definition grant_all :: "constraints \<Rightarrow> gum_result" where
  "grant_all c = Granted 1"

definition streaming_camera :: camera_view where
  "streaming_camera =
     video_playing (video_data 1920 1080 4 (startCamera grant_all (render initial_camera)))"

text \<open>
  The life of the component through one capture: mounted, started by the effect, granted a
  stream that plays 1920 by 1080 frames, the shutter clicked, the App processing and then
  done (the analysis failed, so the component stays mounted), started again by the effect
  and granted a second stream.
\<close>

definition capture_and_restart :: "camera_event list" where
  "capture_and_restart =
     [Committed, EffectRan False, Committed, PreferredAnswered (Granted 1),
      VideoData 1920 1080 4, VideoPlaying,
      ShutterClicked
        \<lparr> getContext_2d = True, drawImage_throws = None,
          toDataURL = Inr (ascii ''data:image/jpeg;base64,/9j/4AAQSkZJRg=='') \<rparr> False,
      Committed, EffectCleanup, EffectRan True,
      EffectCleanup, EffectRan False, Committed, PreferredAnswered (Granted 1)]"

text \<open>Two calls that overlap: the effect runs twice before the device has answered.\<close>

definition overlapping_starts :: "camera_event list" where
  "overlapping_starts =
     [Committed, EffectRan False, EffectRan False, Committed,
      PreferredAnswered (Granted 1), PreferredAnswered (Granted 1)]"

definition good_canvas :: canvas_env where
  "good_canvas =
     \<lparr> getContext_2d = True, drawImage_throws = None,
       toDataURL = Inr (ascii ''data:image/jpeg;base64,/9j/4AAQSkZJRg=='') \<rparr>"

definition throwing_canvas :: canvas_env where
  "throwing_canvas =
     \<lparr> getContext_2d = True,
       drawImage_throws = Some (new_Error (ascii ''InvalidStateError'')),
       toDataURL = Inr (ascii ''data:image/jpeg;base64,/9j/4AAQSkZJRg=='') \<rparr>"

section \<open>The orchestration session\<close>

subsection \<open>The two orders of the race\<close>


lemma begin_then_timer:
  "timer_fires now (handleCapture_begin a) =
     \<lparr> app = a\<lparr>isProcessing := False, error := Some TIMEOUT_MESSAGE\<rparr>,
       analysisPromise = \<lparr>settled = None, handled = True\<rparr>,
       timeoutPromise = \<lparr>settled = Some (Inl (new_Error TIMEOUT_MESSAGE)), handled = True\<rparr>,
       racePromise = \<lparr>settled = Some (Inl (new_Error TIMEOUT_MESSAGE)), handled = True\<rparr>,
       timerDelay = DEADLINE_MS,
       delivered = [(now, Failure TIMEOUT_MESSAGE)],
       unhandledRejections = [] \<rparr>"
  by (simp add: timer_fires_def handleCapture_begin_def race_reaction_def resume_def Let_def
      new_Error_def or_else_def TIMEOUT_MESSAGE_def)

lemma begin_then_analysis:
  "analysis_settles now r (handleCapture_begin a) =
     \<lparr> app = (case r of
                Inr d \<Rightarrow> a\<lparr>isProcessing := False, result := Some d, error := None\<rparr>
              | Inl e \<Rightarrow> a\<lparr>isProcessing := False,
                           error := Some (or_else (message e) FALLBACK_MESSAGE)\<rparr>),
       analysisPromise = \<lparr>settled = Some r, handled = True\<rparr>,
       timeoutPromise = \<lparr>settled = None, handled = True\<rparr>,
       racePromise = \<lparr>settled = Some r, handled = True\<rparr>,
       timerDelay = DEADLINE_MS,
       delivered = [(now, case r of Inr d \<Rightarrow> Success d
                              | Inl e \<Rightarrow> Failure (or_else (message e) FALLBACK_MESSAGE))],
       unhandledRejections = [] \<rparr>"
  by (cases r)
     (simp_all add: analysis_settles_def handleCapture_begin_def race_reaction_def resume_def
       Let_def)

lemma late_analysis_discarded:
  assumes "settled (racePromise s) = Some r0" and "settled (analysisPromise s) = None"
    and "handled (analysisPromise s)"
  shows "analysis_settles now r s = s\<lparr>analysisPromise := \<lparr>settled = Some r, handled = True\<rparr>\<rparr>"
  using assms by (simp add: analysis_settles_def race_reaction_def Let_def)

lemma late_timer_discarded:
  assumes "settled (racePromise s) = Some r0" and "settled (timeoutPromise s) = None"
    and "handled (timeoutPromise s)"
  shows "timer_fires now s =
     s\<lparr>timeoutPromise := \<lparr>settled = Some (Inl (new_Error TIMEOUT_MESSAGE)), handled = True\<rparr>\<rparr>"
  using assms by (simp add: timer_fires_def race_reaction_def Let_def)

lemma timerDelay_begin: "timerDelay (handleCapture_begin a) = DEADLINE_MS"
  by (simp add: handleCapture_begin_def)

lemma run_session_late:
  assumes "\<not> settles_before_deadline beh af DEADLINE_MS"
  shows "run_session beh af a =
     \<lparr> app = a\<lparr>isProcessing := False, error := Some TIMEOUT_MESSAGE\<rparr>,
       analysisPromise = \<lparr>settled = (case beh of Never \<Rightarrow> None | SettlesAt t r \<Rightarrow> Some r), handled = True\<rparr>,
       timeoutPromise = \<lparr>settled = Some (Inl (new_Error TIMEOUT_MESSAGE)), handled = True\<rparr>,
       racePromise = \<lparr>settled = Some (Inl (new_Error TIMEOUT_MESSAGE)), handled = True\<rparr>,
       timerDelay = DEADLINE_MS,
       delivered = [(DEADLINE_MS, Failure TIMEOUT_MESSAGE)],
       unhandledRejections = [] \<rparr>"
proof (cases beh)
  case Never
  then show ?thesis
    by (simp add: run_session_def schedule_def timerDelay_begin begin_then_timer)
next
  case (SettlesAt t r)
  with assms have sch: "schedule (SettlesAt t r) af DEADLINE_MS = [(DEADLINE_MS, TimerFired), (t, AnalysisSettled r)]"
    by (simp add: schedule_def)
  show ?thesis
    by (simp add: run_session_def timerDelay_begin sch begin_then_timer late_analysis_discarded SettlesAt)
qed

lemma run_session_early:
  assumes "settles_before_deadline (SettlesAt t r) af DEADLINE_MS"
  shows "run_session (SettlesAt t r) af a =
     \<lparr> app = (case r of Inr d \<Rightarrow> a\<lparr>isProcessing := False, result := Some d, error := None\<rparr>
               | Inl e \<Rightarrow> a\<lparr>isProcessing := False, error := Some (or_else (message e) FALLBACK_MESSAGE)\<rparr>),
       analysisPromise = \<lparr>settled = Some r, handled = True\<rparr>,
       timeoutPromise = \<lparr>settled = Some (Inl (new_Error TIMEOUT_MESSAGE)), handled = True\<rparr>,
       racePromise = \<lparr>settled = Some r, handled = True\<rparr>,
       timerDelay = DEADLINE_MS,
       delivered = [(t, case r of Inr d \<Rightarrow> Success d | Inl e \<Rightarrow> Failure (or_else (message e) FALLBACK_MESSAGE))],
       unhandledRejections = [] \<rparr>"
proof -
  from assms have sch: "schedule (SettlesAt t r) af DEADLINE_MS = [(t, AnalysisSettled r), (DEADLINE_MS, TimerFired)]"
    by (simp add: schedule_def)
  show ?thesis
    by (simp add: run_session_def timerDelay_begin sch begin_then_analysis late_timer_discarded)
qed

lemma run_session_once:
  "length (delivered (run_session beh af a)) = 1 \<and> unhandledRejections (run_session beh af a) = []"
proof (cases "settles_before_deadline beh af DEADLINE_MS")
  case False
  then show ?thesis by (simp add: run_session_late)
next
  case True
  then obtain t r where "beh = SettlesAt t r"
    by (cases beh) (simp_all add: settles_before_deadline_def)
  with True show ?thesis by (simp add: run_session_early)
qed

lemma handleCapture_session:
  "fst (handleCapture lib af p a img) =
     run_session (fst (analyzeIngredientsAndGetRecipes lib p img)) af a"
  by (simp add: handleCapture_def split: prod.splits)

text \<open>
  The same holds whatever events arrive and in whatever order: a session that has begun
  delivers at most one outcome and leaves no rejection without a reaction.
\<close>

lemma step_keeps_once:
  assumes "handled (analysisPromise s)" "handled (timeoutPromise s)" "handled (racePromise s)"
    and "unhandledRejections s = []"
    and "length (delivered s) = (if settled (racePromise s) = None then 0 else 1)"
  shows "handled (analysisPromise (step ev s)) \<and> handled (timeoutPromise (step ev s))
       \<and> handled (racePromise (step ev s)) \<and> unhandledRejections (step ev s) = []
       \<and> length (delivered (step ev s)) = (if settled (racePromise (step ev s)) = None then 0 else 1)"
proof (cases ev)
  case (Pair now e)
  show ?thesis
  proof (cases e)
    case (AnalysisSettled r)
    with Pair assms show ?thesis
      by (cases r; cases "settled (analysisPromise s)"; cases "settled (racePromise s)")
         (simp_all add: analysis_settles_def race_reaction_def resume_def Let_def)
  next
    case TimerFired
    with Pair assms show ?thesis
      by (cases "settled (timeoutPromise s)"; cases "settled (racePromise s)")
         (simp_all add: timer_fires_def race_reaction_def resume_def Let_def new_Error_def)
  qed
qed

lemma fold_step_keeps_once:
  assumes "handled (analysisPromise s)" "handled (timeoutPromise s)" "handled (racePromise s)"
    and "unhandledRejections s = []"
    and "length (delivered s) = (if settled (racePromise s) = None then 0 else 1)"
  shows "unhandledRejections (fold step evs s) = [] \<and> length (delivered (fold step evs s)) \<le> 1"
  using assms
proof (induction evs arbitrary: s)
  case Nil
  then show ?case by (simp split: if_splits)
next
  case (Cons ev evs)
  from step_keeps_once[OF Cons.prems, of ev] Cons.IH[of "step ev s"]
  show ?case by simp
qed

lemma at_most_once_in_any_order:
  "unhandledRejections (fold step evs (handleCapture_begin a)) = []
   \<and> length (delivered (fold step evs (handleCapture_begin a))) \<le> 1"
  by (rule fold_step_keeps_once) (simp_all add: handleCapture_begin_def)

subsection \<open>How the analysis call settles\<close>


lemma analysis_constructor_throws:
  assumes "GoogleGenAI_throws lib (API_KEY p) = Some e"
  shows "fst (analyzeIngredientsAndGetRecipes lib p img) = SettlesAt 0 (Inl e)"
  using assms by (simp add: analyzeIngredientsAndGetRecipes_def Let_def)

lemma analysis_never:
  assumes "GoogleGenAI_throws lib (API_KEY p) = None"
    and "generateContent lib (API_KEY p) (build_request img) = Never"
  shows "fst (analyzeIngredientsAndGetRecipes lib p img) = Never"
  using assms by (simp add: analyzeIngredientsAndGetRecipes_def Let_def)





text \<open>
  C1. Every call of \<open>handleCapture\<close>, with its timer of 35000 ms, delivers exactly one outcome
  to the host and leaves no rejection unhandled. When the analysis call has not settled at
  the moment the timer fires (it settles later, or never), that outcome is the failure with
  the timeout message, delivered at 35000 ms; the session runs on through the late
  settlement of the analysis call, which changes neither the App's state nor the outcomes
  delivered.
\<close>

theorem handleCapture_deadline:
  "length (delivered (fst (handleCapture lib af p a img))) = 1
   \<and> unhandledRejections (fst (handleCapture lib af p a img)) = []
   \<and> (\<not> settles_before_deadline (fst (analyzeIngredientsAndGetRecipes lib p img)) af 35000 \<longrightarrow>
        delivered (fst (handleCapture lib af p a img)) = [(35000, Failure TIMEOUT_MESSAGE)]
      \<and> app (fst (handleCapture lib af p a img)) =
          a\<lparr>isProcessing := False, error := Some TIMEOUT_MESSAGE\<rparr>)"
proof -
  have d: "DEADLINE_MS = 35000" by (simp add: DEADLINE_MS_def)
  show ?thesis
    using run_session_once[of "fst (analyzeIngredientsAndGetRecipes lib p img)" af a]
      run_session_late[of "fst (analyzeIngredientsAndGetRecipes lib p img)" af a]
    by (simp add: handleCapture_session d)
qed

text \<open>
  The analysis resolving with a valid document at 40000 ms: the timeout is delivered, the
  result stays empty.
\<close>

theorem handleCapture_deadline_witness:
  "\<not> settles_before_deadline
       (fst (analyzeIngredientsAndGetRecipes
          (sample_sdk (SettlesAt 40000 (Responds (Some sample_text)))) sample_process
          (ascii ''/9j/4AAQSkZJRg==''))) False 35000
   \<and> delivered (fst (handleCapture (sample_sdk (SettlesAt 40000 (Responds (Some sample_text))))
         False sample_process initial_app (ascii ''/9j/4AAQSkZJRg==''))) =
       [(35000, Failure TIMEOUT_MESSAGE)]
   \<and> result (app (fst (handleCapture (sample_sdk (SettlesAt 40000 (Responds (Some sample_text))))
         False sample_process initial_app (ascii ''/9j/4AAQSkZJRg==''))) ) = None
   \<and> unhandledRejections (fst (handleCapture
         (sample_sdk (SettlesAt 40000 (Responds (Some sample_text))))
         False sample_process initial_app (ascii ''/9j/4AAQSkZJRg==''))) = []"
proof -
  have late: "\<not> settles_before_deadline
       (fst (analyzeIngredientsAndGetRecipes
          (sample_sdk (SettlesAt 40000 (Responds (Some sample_text)))) sample_process
          (ascii ''/9j/4AAQSkZJRg==''))) False 35000"
    by (simp add: analyzeIngredientsAndGetRecipes_def sample_sdk_def sample_process_def
        settles_before_deadline_def Let_def)
  from late handleCapture_deadline[of "sample_sdk (SettlesAt 40000 (Responds (Some sample_text)))"
      False sample_process initial_app "ascii ''/9j/4AAQSkZJRg==''"]
  show ?thesis by (simp add: initial_app_def)
qed

text \<open>
  A constructor that throws is outside the \<^verbatim>\<open>try\<close> of the analysis: its error reaches
  \<open>handleCapture\<close> as it is, and the host is shown its message, or the fallback message
  when it has none.
\<close>

lemma handleCapture_constructor_throws:
  assumes "GoogleGenAI_throws lib (API_KEY p) = Some e"
  shows "delivered (fst (handleCapture lib af p a img)) =
           [(0, Failure (or_else (message e) FALLBACK_MESSAGE))]
    \<and> unhandledRejections (fst (handleCapture lib af p a img)) = []"
proof -
  have early: "settles_before_deadline (SettlesAt 0 (Inl e) :: (js_error + 'a) behaviour) af DEADLINE_MS"
    by (simp add: settles_before_deadline_def DEADLINE_MS_def)
  show ?thesis
    by (simp add: handleCapture_session analysis_constructor_throws[OF assms]
        run_session_early[OF early])
qed





text \<open>
  C7. When the analysis call resolves with a document before the timer fires, the host
  receives success with that very document: it becomes the App's \<^verbatim>\<open>result\<close>, no error is
  set and processing has ended.
\<close>

theorem handleCapture_passes_document:
  assumes "fst (analyzeIngredientsAndGetRecipes lib p img) = SettlesAt t (Inr d)"
    and "settles_before_deadline (fst (analyzeIngredientsAndGetRecipes lib p img)) af 35000"
  shows "delivered (fst (handleCapture lib af p a img)) = [(t, Success d)]
    \<and> result (app (fst (handleCapture lib af p a img))) = Some d
    \<and> error (app (fst (handleCapture lib af p a img))) = None
    \<and> \<not> isProcessing (app (fst (handleCapture lib af p a img)))"
proof -
  have early: "settles_before_deadline (SettlesAt t (Inr d) :: (js_error + 'a) behaviour) af DEADLINE_MS"
    using assms by (simp add: DEADLINE_MS_def)
  show ?thesis
    by (simp add: handleCapture_session assms(1) run_session_early[OF early])
qed

text \<open>
  The document the analysis call resolves with is the one \<^verbatim>\<open>JSON.parse\<close> returned for the
  trimmed text of the response.
\<close>

lemma analysis_resolves_with_parsed_document:
  assumes "fst (analyzeIngredientsAndGetRecipes lib p img) = SettlesAt t (Inr d)"
  shows "\<exists>txt. generateContent lib (API_KEY p) (build_request img) = SettlesAt t (Responds (Some txt))
           \<and> txt \<noteq> [] \<and> JSON_parse lib (trim txt) = Inr d"
  using assms
  by (auto simp: analyzeIngredientsAndGetRecipes_def Let_def settle_analysis_def try_block_def
      split: option.splits behaviour.splits sdk_settled.splits sum.splits if_splits)

text \<open>A response with one ingredient and no recipe, settled at 1200 ms.\<close>

theorem handleCapture_passes_document_witness:
  "fst (analyzeIngredientsAndGetRecipes (sample_sdk (SettlesAt 1200 (Responds (Some sample_text))))
       sample_process (ascii ''/9j/4AAQSkZJRg=='')) = SettlesAt 1200 (Inr sample_document)
   \<and> settles_before_deadline
       (fst (analyzeIngredientsAndGetRecipes
          (sample_sdk (SettlesAt 1200 (Responds (Some sample_text))))
          sample_process (ascii ''/9j/4AAQSkZJRg==''))) False 35000
   \<and> result (app (fst (handleCapture (sample_sdk (SettlesAt 1200 (Responds (Some sample_text))))
       False sample_process initial_app (ascii ''/9j/4AAQSkZJRg=='')))) = Some sample_document
   \<and> ingredients sample_document \<noteq> []"
proof -
  have trim_text: "trim sample_text = sample_text"
    by (simp add: trim_def sample_text_def isWhiteSpace_def)
  have nonempty: "sample_text \<noteq> []"
    by (simp add: sample_text_def)
  have beh: "fst (analyzeIngredientsAndGetRecipes
       (sample_sdk (SettlesAt 1200 (Responds (Some sample_text))))
       sample_process (ascii ''/9j/4AAQSkZJRg=='')) = SettlesAt 1200 (Inr sample_document)"
    by (simp add: analyzeIngredientsAndGetRecipes_def sample_sdk_def sample_process_def Let_def
        settle_analysis_def try_block_def sample_parse_def trim_text nonempty)
  have early: "settles_before_deadline
       (fst (analyzeIngredientsAndGetRecipes
          (sample_sdk (SettlesAt 1200 (Responds (Some sample_text))))
          sample_process (ascii ''/9j/4AAQSkZJRg==''))) False 35000"
    by (simp add: beh settles_before_deadline_def)
  from handleCapture_passes_document[OF beh early, of initial_app] beh early
  show ?thesis by (simp add: sample_document_def)
qed

text \<open>
  C8. Every invocation of \<open>analyzeIngredientsAndGetRecipes\<close> builds one client, with the
  value \<^verbatim>\<open>process.env.API_KEY\<close> has at that invocation, and sends its request through that
  client. A key rotated between two invocations is the key of the second client.
\<close>

theorem credential_read_on_every_invocation:
  "GoogleGenAI_calls (snd (analyzeIngredientsAndGetRecipes lib p img)) =
     GoogleGenAI_calls p @ [API_KEY p]
   \<and> generateContent_calls (snd (analyzeIngredientsAndGetRecipes lib p img)) =
     generateContent_calls p @
       (case GoogleGenAI_throws lib (API_KEY p) of
          None \<Rightarrow> [(API_KEY p, build_request img)]
        | Some e \<Rightarrow> [])
   \<and> GoogleGenAI_calls
       (snd (analyzeIngredientsAndGetRecipes lib
          ((snd (analyzeIngredientsAndGetRecipes lib p img))\<lparr>API_KEY := rotated\<rparr>) img2)) =
     GoogleGenAI_calls p @ [API_KEY p, rotated]"
  by (simp add: analyzeIngredientsAndGetRecipes_def Let_def
      split: option.splits behaviour.splits)


section \<open>The camera session\<close>


text \<open>A committed state is a fixed point of \<open>render\<close>, and every render commits one.\<close>

lemma rendered_render: "rendered (render s)"
  by (simp add: rendered_def render_def split: option.splits)

lemma render_rendered: "rendered s \<Longrightarrow> render s = s"
  by (cases "videoRef s"; cases "canvasRef s") (auto simp: rendered_def render_def)

subsection \<open>Streams and their tracks\<close>

lemma live_stopped: "\<not> live (map (\<lambda>t. False) tracks)"
  by (induction tracks) (simp_all add: live_def)

lemma live_replicate: "live (replicate n True) = (0 < n)"
  by (induction n) (simp_all add: live_def)

lemma streams_stopTracks:
  "streams (stopTracks i s) =
     (if i < length (streams s) then (streams s)[i := map (\<lambda>t. False) (streams s ! i)]
      else streams s)"
  by (simp add: stopTracks_def)

lemma no_live_after_stop:
  assumes "i < length xs" and "\<forall>j<length xs. live (xs ! j) \<longrightarrow> j = i"
  shows "filter live (xs[i := map (\<lambda>t. False) (xs ! i)]) = []"
proof -
  have "\<not> live y" if "y \<in> set (xs[i := map (\<lambda>t. False) (xs ! i)])" for y
  proof -
    from that obtain j where j: "j < length xs" "y = (xs[i := map (\<lambda>t. False) (xs ! i)]) ! j"
      by (auto simp: in_set_conv_nth)
    show ?thesis
    proof (cases "j = i")
      case True
      with j assms(1) show ?thesis by (simp add: live_stopped)
    next
      case False
      with j assms(2) show ?thesis by auto
    qed
  qed
  then show ?thesis by (simp add: filter_empty_conv)
qed

lemma streams_acquire:
  "streams (snd (acquire gum s)) =
     streams s @
       (case gum PREFERRED_CONSTRAINTS of
          Granted n \<Rightarrow> [replicate n True]
        | Denied e \<Rightarrow>
            (case gum SIMPLE_CONSTRAINTS of
               Granted n \<Rightarrow> [replicate n True]
             | Denied e' \<Rightarrow> []))"
  by (simp add: acquire_def request_stream_def Let_def split: gum_result.splits)

lemma streams_attach: "streams (attach h s) = streams s"
  by (simp add: attach_def Let_def split: option.splits)

lemma streams_startCamera:
  "streams (startCamera gum s) =
     streams s @
       (case gum PREFERRED_CONSTRAINTS of
          Granted n \<Rightarrow> [replicate n True]
        | Denied e \<Rightarrow>
            (case gum SIMPLE_CONSTRAINTS of
               Granted n \<Rightarrow> [replicate n True]
             | Denied e' \<Rightarrow> []))"
proof -
  have "streams (startCamera_end gum s') = streams (snd (acquire gum s'))" for s'
    by (cases "acquire gum s'") (simp add: startCamera_end_def streams_attach split: sum.splits)
  then show ?thesis
    by (simp add: startCamera_def streams_acquire render_def startCamera_begin_def)
qed

subsection \<open>One call piece by piece, and many calls\<close>

text \<open>
  The call run to its end is the pieces run one after the other: the call made, the commit,
  the device's answer to the preferred request and, after a rejection, its answer to the
  simple one.
\<close>

lemma startCamera_stepwise:
  "startCamera gum s =
     (case gum PREFERRED_CONSTRAINTS of
        Granted n \<Rightarrow> preferred_answered (Granted n) (render (startCamera_called s))
      | Denied e \<Rightarrow>
          simple_answered (gum SIMPLE_CONSTRAINTS)
            (preferred_answered (Denied e) (render (startCamera_called s))))"
  by (simp add: startCamera_def startCamera_end_def acquire_def request_stream_def
      preferred_answered_def simple_answered_def stream_granted_def startCamera_called_def
      startCamera_begin_def render_def attach_def Let_def
      split: gum_result.splits option.splits)

text \<open>Stopping tracks never adds a live stream, and neither does the shutter.\<close>

lemma live_count_update:
  assumes "\<not> live y"
  shows "length (filter live (xs[i := y])) \<le> length (filter live xs)"
  using assms
proof (induction xs arbitrary: i)
  case Nil
  then show ?case by simp
next
  case (Cons x xs)
  show ?case
  proof (cases i)
    case 0
    with Cons.prems show ?thesis by simp
  next
    case (Suc j)
    with Cons.IH[OF Cons.prems, of j] show ?thesis by simp
  qed
qed

lemma live_count_stopTracks:
  "length (live_streams (stopTracks i s)) \<le> length (live_streams s)"
  by (simp add: stopTracks_def live_streams_def live_count_update live_stopped)

lemma pending_stopTracks: "pendingStarts (stopTracks i s) = pendingStarts s"
  by (simp add: stopTracks_def)

lemma capturePhoto_streams:
  "streams (capturePhoto env processing s) = streams s
   \<or> (\<exists>i. streams (capturePhoto env processing s) = streams (stopTracks i s))"
  by (auto simp: capturePhoto_def capture_body_def stopTracks_def Let_def
      split: option.splits sum.splits if_splits)

lemma live_count_capturePhoto:
  "length (live_streams (capturePhoto env processing s)) \<le> length (live_streams s)"
proof -
  from capturePhoto_streams[of env processing s] show ?thesis
  proof
    assume "streams (capturePhoto env processing s) = streams s"
    then show ?thesis by (simp add: live_streams_def)
  next
    assume "\<exists>i. streams (capturePhoto env processing s) = streams (stopTracks i s)"
    then obtain i where "streams (capturePhoto env processing s) = streams (stopTracks i s)" ..
    then have "live_streams (capturePhoto env processing s) = live_streams (stopTracks i s)"
      by (simp add: live_streams_def)
    then show ?thesis by (simp add: live_count_stopTracks)
  qed
qed

lemma pending_capturePhoto: "pendingStarts (capturePhoto env processing s) = pendingStarts s"
  by (auto simp: capturePhoto_def capture_body_def stopTracks_def Let_def
      split: option.splits sum.splits if_splits)

lemma stream_granted_count:
  "streams (stream_granted n s) = streams s @ [replicate n True]
   \<and> pendingStarts (stream_granted n s) = pendingStarts s - 1"
  by (simp add: stream_granted_def attach_def Let_def split: option.splits)

text \<open>
  Suspended calls and live streams together number at most one, and every event keeps it
  so, a call of \<^verbatim>\<open>startCamera\<close> provided that none is suspended and no stream is live when
  it is made.
\<close>

lemma camera_step_keeps_one:
  assumes "pendingStarts s + length (live_streams s) \<le> 1"
    and "is_start_call e \<longrightarrow> pendingStarts s = 0 \<and> live_streams s = []"
  shows "pendingStarts (camera_step e s) + length (live_streams (camera_step e s)) \<le> 1"
proof (cases e)
  case (EffectRan processing)
  with assms show ?thesis
    by (cases processing)
       (simp_all add: effect_def startCamera_called_def startCamera_begin_def live_streams_def)
next
  case RetryClicked
  with assms show ?thesis
    by (simp add: startCamera_called_def startCamera_begin_def live_streams_def)
next
  case (PreferredAnswered r)
  show ?thesis
  proof (cases "pendingStarts s = 0")
    case True
    with PreferredAnswered assms(1) show ?thesis by simp
  next
    case False
    with assms(1) have "pendingStarts s = 1" "length (live_streams s) = 0" by arith+
    then have "pendingStarts s = 1" "live_streams s = []" by simp_all
    with PreferredAnswered show ?thesis
      by (cases r) (simp_all add: preferred_answered_def stream_granted_count live_streams_def)
  qed
next
  case (SimpleAnswered r)
  show ?thesis
  proof (cases "pendingStarts s = 0")
    case True
    with SimpleAnswered assms(1) show ?thesis by simp
  next
    case False
    with assms(1) have "pendingStarts s = 1" "length (live_streams s) = 0" by arith+
    then have "pendingStarts s = 1" "live_streams s = []" by simp_all
    with SimpleAnswered show ?thesis
      by (cases r) (simp_all add: simple_answered_def stream_granted_count live_streams_def)
  qed
next
  case Committed
  with assms(1) show ?thesis by (simp add: render_def live_streams_def)
next
  case (ShutterClicked env processing)
  with assms(1) live_count_capturePhoto[of env processing s] show ?thesis
    by (simp add: pending_capturePhoto)
next
  case VideoPlaying
  with assms(1) show ?thesis
    by (simp add: video_playing_def handleVideoPlay_def live_streams_def split: option.splits)
next
  case (VideoLoadedMetadata b)
  with assms(1) show ?thesis
    by (simp add: video_loadedmetadata_def live_streams_def split: option.splits)
next
  case (VideoData w h ready)
  with assms(1) show ?thesis
    by (simp add: video_data_def live_streams_def split: option.splits)
next
  case EffectCleanup
  have "pendingStarts (effect_cleanup s) = pendingStarts s"
    "length (live_streams (effect_cleanup s)) \<le> length (live_streams s)"
    by (simp_all add: effect_cleanup_def pending_stopTracks live_count_stopTracks
        split: option.splits)
  with EffectCleanup assms(1) show ?thesis by simp
next
  case FlashTimeout
  with assms(1) show ?thesis by (simp add: flash_timeout_def live_streams_def)
qed

lemma calls_apart_keeps_one:
  assumes "pendingStarts s + length (live_streams s) \<le> 1" and "calls_apart evs s"
  shows "pendingStarts (fold camera_step evs s) + length (live_streams (fold camera_step evs s)) \<le> 1"
  using assms
proof (induction evs arbitrary: s)
  case Nil
  then show ?case by simp
next
  case (Cons e evs)
  from Cons.prems have step: "pendingStarts (camera_step e s) + length (live_streams (camera_step e s)) \<le> 1"
    by (intro camera_step_keeps_one) (auto split: if_splits)
  from Cons.prems have "calls_apart evs (camera_step e s)" by simp
  with step Cons.IH show ?case by simp
qed

lemma calls_apart_take: "calls_apart evs s \<Longrightarrow> calls_apart (take k evs) s"
proof (induction evs arbitrary: s k)
  case Nil
  then show ?case by simp
next
  case (Cons e evs)
  then show ?case by (cases k) simp_all
qed

text \<open>
  C5, as the code has it. \<open>startCamera\<close> has no guard: whatever the state, a call voids the
  captured image and issues the preferred request, so it is never a no-op, also while an
  earlier call is suspended or a stream plays. At most one stream is live at any time under
  a condition on the callers: starting from a state with at most one suspended call or live
  stream, \<^verbatim>\<open>startCamera\<close> is called only at moments when no earlier call is suspended and no
  acquired stream has a live track. Then every state along the way has at most one live
  stream, whatever else runs in between: device answers, commits, captures, cleanups, the
  video element's events.
\<close>

theorem startCamera_unguarded:
  "startCamera_called s \<noteq> s
   \<and> capturedImage (startCamera_called s) = None
   \<and> getUserMedia_calls (startCamera_called s) = getUserMedia_calls s @ [PREFERRED_CONSTRAINTS]
   \<and> (pendingStarts s + length (live_streams s) \<le> 1 \<and> calls_apart evs s \<longrightarrow>
        (\<forall>k. length (live_streams (fold camera_step (take k evs) s)) \<le> 1))"
proof -
  have calls: "getUserMedia_calls (startCamera_called s) = getUserMedia_calls s @ [PREFERRED_CONSTRAINTS]"
    and img: "capturedImage (startCamera_called s) = None"
    by (simp_all add: startCamera_called_def startCamera_begin_def)
  from calls have "getUserMedia_calls (startCamera_called s) \<noteq> getUserMedia_calls s" by simp
  then have ne: "startCamera_called s \<noteq> s" by auto
  have one: "length (live_streams (fold camera_step (take k evs) s)) \<le> 1"
    if "pendingStarts s + length (live_streams s) \<le> 1" "calls_apart evs s" for k
    using calls_apart_keeps_one[OF that(1) calls_apart_take[OF that(2), of k]] by simp
  from ne img calls one show ?thesis by blast
qed



subsection \<open>The requests of startCamera\<close>

lemma calls_startCamera:
  "getUserMedia_calls (startCamera gum s) =
     getUserMedia_calls s @
       (case gum PREFERRED_CONSTRAINTS of
          Granted n \<Rightarrow> [PREFERRED_CONSTRAINTS]
        | Denied e \<Rightarrow> [PREFERRED_CONSTRAINTS, SIMPLE_CONSTRAINTS])"
  by (simp add: startCamera_def startCamera_end_def acquire_def request_stream_def Let_def
      attach_def render_def startCamera_begin_def split: gum_result.splits option.splits)

lemma error_startCamera:
  "cameraError (startCamera gum s) =
     (case gum PREFERRED_CONSTRAINTS of
        Granted n \<Rightarrow> None
      | Denied e \<Rightarrow>
          (case gum SIMPLE_CONSTRAINTS of
             Granted n \<Rightarrow> None
           | Denied e' \<Rightarrow> Some CAMERA_MESSAGE))"
  by (simp add: startCamera_def startCamera_end_def acquire_def request_stream_def Let_def
      split: gum_result.splits)

text \<open>
  C6. Every call of \<open>startCamera\<close> first asks for video only, no audio, with the
  rear-facing camera and 1920 by 1080 as ideal values; when that request is rejected it asks
  once more, for any video and no audio, and makes no further request; the error message
  is set exactly when both requests are rejected, and it is the one fixed message whatever
  the two rejections were. In every other case the error is cleared.
\<close>

theorem startCamera_requests:
  "getUserMedia_calls (startCamera gum s) =
     getUserMedia_calls s @
       (case gum PREFERRED_CONSTRAINTS of
          Granted n \<Rightarrow> [PREFERRED_CONSTRAINTS]
        | Denied e \<Rightarrow> [PREFERRED_CONSTRAINTS, SIMPLE_CONSTRAINTS])
   \<and> cameraError (startCamera gum s) =
     (case gum PREFERRED_CONSTRAINTS of
        Granted n \<Rightarrow> None
      | Denied e \<Rightarrow>
          (case gum SIMPLE_CONSTRAINTS of
             Granted n \<Rightarrow> None
           | Denied e' \<Rightarrow> Some CAMERA_MESSAGE))
   \<and> PREFERRED_CONSTRAINTS =
       \<lparr> c_video = VideoIdeal (ascii ''environment'') 1920 1080, c_audio = False \<rparr>
   \<and> SIMPLE_CONSTRAINTS = \<lparr> c_video = VideoTrue, c_audio = False \<rparr>"
  by (simp add: calls_startCamera error_startCamera PREFERRED_CONSTRAINTS_def
      SIMPLE_CONSTRAINTS_def)

text \<open>
  C9. Entering \<open>startCamera\<close> voids the captured image: it is \<^verbatim>\<open>null\<close> once the call has
  begun, whatever it was before, and still \<^verbatim>\<open>null\<close> when the call has finished.
\<close>

theorem startCamera_voids_image:
  "capturedImage (startCamera_begin s) = None \<and> capturedImage (startCamera gum s) = None"
  by (simp add: startCamera_def startCamera_end_def acquire_def request_stream_def Let_def
      attach_def render_def startCamera_begin_def split: gum_result.splits option.splits)

subsection \<open>capturePhoto\<close>

text \<open>
  C3. In a committed state whose phase is not Streaming, or whose video element has a frame
  of width or height zero (or while the App is processing), \<open>capturePhoto\<close> returns the
  state as it was: no image is stored, \<^verbatim>\<open>onCapture\<close> is not called, nothing is thrown.
\<close>

theorem capturePhoto_noop:
  assumes "rendered s" and "processing \<or> phase_of s \<noteq> Streaming \<or> frame_empty s"
  shows "capturePhoto env processing s = s"
  using assms
  by (auto simp: capturePhoto_def rendered_def phase_of_def frame_empty_def Let_def
      split: option.splits if_splits)

text \<open>Past its guards, the call flashes, sizes the canvas and runs the guarded block.\<close>

lemma capturePhoto_started:
  assumes "\<not> processing" "videoRef s = Some v" "canvasRef s = Some c" "streamActive s"
    "0 < videoWidth v" "0 < videoHeight v"
  shows "capturePhoto env processing s =
     (let s1 = s\<lparr>isFlashing := True,
                 canvasRef := Some (c\<lparr>canvas_width := videoWidth v, canvas_height := videoHeight v\<rparr>)\<rparr>
      in if \<not> getContext_2d env then s1
         else (case capture_body env v s1 of Inl err \<Rightarrow> s1 | Inr s2 \<Rightarrow> s2))"
  using assms by (simp add: capturePhoto_def Let_def)

text \<open>
  C10. When \<^verbatim>\<open>drawImage\<close> or \<^verbatim>\<open>toDataURL\<close> throws, \<open>capturePhoto\<close> only flashes and sizes
  the canvas: the captured image, the calls of \<^verbatim>\<open>onCapture\<close>, the tracks and
  \<^verbatim>\<open>streamActive\<close> are as before, so the phase is unchanged, and a further attempt does
  what it would have done in the state before the failed one.
\<close>

theorem capturePhoto_render_failure:
  assumes "\<not> processing" "videoRef s = Some v" "canvasRef s = Some c" "streamActive s"
    "0 < videoWidth v" "0 < videoHeight v"
    and "drawImage_throws env \<noteq> None \<or> (\<exists>e. toDataURL env = Inl e)"
  shows "capturePhoto env processing s =
       s\<lparr>isFlashing := True,
         canvasRef := Some (c\<lparr>canvas_width := videoWidth v, canvas_height := videoHeight v\<rparr>)\<rparr>
     \<and> capturedImage (capturePhoto env processing s) = capturedImage s
     \<and> onCapture_calls (capturePhoto env processing s) = onCapture_calls s
     \<and> streams (capturePhoto env processing s) = streams s
     \<and> streamActive (capturePhoto env processing s)
     \<and> phase_of (capturePhoto env processing s) = phase_of s
     \<and> capturePhoto env2 processing (capturePhoto env processing s) = capturePhoto env2 processing s"
proof -
  have body: "\<exists>e. capture_body env v s' = Inl e" for s'
    using assms(7) by (auto simp: capture_body_def split: option.splits sum.splits)
  let ?s1 = "s\<lparr>isFlashing := True,
         canvasRef := Some (c\<lparr>canvas_width := videoWidth v, canvas_height := videoHeight v\<rparr>)\<rparr>"
  have r: "capturePhoto env processing s = ?s1"
    using body[of ?s1] by (auto simp: capturePhoto_started[OF assms(1-6)] Let_def)
  have again: "capturePhoto env2 processing ?s1 = capturePhoto env2 processing s"
    using assms(1-6)
    by (simp add: capturePhoto_def Let_def capture_body_def stopTracks_def
        split: option.splits sum.splits)
  show ?thesis
    using assms(4) by (simp add: r again phase_of_def)
qed

text \<open>
  C2, as the code has it. In a committed Streaming state with a frame of non-zero width and
  height, when the App is not processing, the canvas gives a context, neither
  \<^verbatim>\<open>drawImage\<close> nor \<^verbatim>\<open>toDataURL\<close> throws and the data URL has a non-empty part after its
  first comma: \<^verbatim>\<open>onCapture\<close> is called once, with that part; the data URL is stored as
  the captured image; every track of the attached stream is stopped and the stream is no
  longer active, so the phase is Captured; and when no other stream was live, no live stream
  remains.
\<close>

theorem capturePhoto_captures:
  assumes "rendered s" and "phase_of s = Streaming" and "\<not> processing"
    and "videoRef s = Some v" and "0 < videoWidth v" and "0 < videoHeight v"
    and "getContext_2d env" and "drawImage_throws env = None" and "toDataURL env = Inr dataUrl"
    and "element (split 44 dataUrl) 1 = Some base64" and "base64 \<noteq> []"
    and "srcObject v = Some stream" and "stream < length (streams s)"
    and "\<forall>i<length (streams s). live (streams s ! i) \<longrightarrow> i = stream"
  shows "onCapture_calls (capturePhoto env processing s) = onCapture_calls s @ [base64]
     \<and> capturedImage (capturePhoto env processing s) = Some dataUrl
     \<and> \<not> live (streams (capturePhoto env processing s) ! stream)
     \<and> live_streams (capturePhoto env processing s) = []
     \<and> \<not> streamActive (capturePhoto env processing s)
     \<and> phase_of (capturePhoto env processing s) = Captured"
proof -
  from assms(1,2) have st: "streamActive s" "cameraError s = None" "capturedImage s = None"
    by (auto simp: phase_of_def split: if_splits)
  with assms(1) obtain c where c: "canvasRef s = Some c"
    by (auto simp: rendered_def)
  let ?s1 = "s\<lparr>isFlashing := True,
         canvasRef := Some (c\<lparr>canvas_width := videoWidth v, canvas_height := videoHeight v\<rparr>)\<rparr>"
  let ?s2 = "?s1\<lparr>capturedImage := Some dataUrl, onCapture_calls := onCapture_calls s @ [base64]\<rparr>"
  have body: "capture_body env v ?s1 = Inr ((stopTracks stream ?s2)\<lparr>streamActive := False\<rparr>)"
    using assms(8-12) by (simp add: capture_body_def Let_def)
  have r: "capturePhoto env processing s = (stopTracks stream ?s2)\<lparr>streamActive := False\<rparr>"
    using assms(7) body
    by (simp add: capturePhoto_started[OF assms(3,4) c st(1) assms(5,6)] Let_def)
  have str: "streams (capturePhoto env processing s) =
      (streams s)[stream := map (\<lambda>t. False) (streams s ! stream)]"
    using assms(13) by (simp add: r streams_stopTracks)
  have nolive: "live_streams (capturePhoto env processing s) = []"
    unfolding live_streams_def str using assms(13,14) by (rule no_live_after_stop)
  have one: "\<not> live (streams (capturePhoto env processing s) ! stream)"
    using assms(13) by (simp add: str live_stopped)
  have rest: "onCapture_calls (capturePhoto env processing s) = onCapture_calls s @ [base64]"
    "capturedImage (capturePhoto env processing s) = Some dataUrl"
    "\<not> streamActive (capturePhoto env processing s)"
    "cameraError (capturePhoto env processing s) = None"
    using st(2) by (simp_all add: r stopTracks_def)
  show ?thesis
    using rest nolive one by (simp add: phase_of_def)
qed


subsection \<open>The concrete component\<close>

lemma streaming_camera_state:
  "streaming_camera =
     \<lparr> cameraError = None, streamActive = True, isFlashing = False, capturedImage = None,
       videoRef = Some \<lparr> srcObject = Some 0, videoWidth = 1920, videoHeight = 1080,
                         readyState = 4, onplaying = True, onloadedmetadata = True \<rparr>,
       canvasRef = Some fresh_canvas, streams = [[True]], pendingStarts = 0,
       getUserMedia_calls = [PREFERRED_CONSTRAINTS], onCapture_calls = [] \<rparr>"
  by (simp add: streaming_camera_def video_playing_def video_data_def startCamera_def
      startCamera_end_def acquire_def request_stream_def attach_def render_def
      startCamera_begin_def initial_camera_def grant_all_def fresh_video_def handleVideoPlay_def
      Let_def)

lemma good_payload:
  "element (split 44 (ascii ''data:image/jpeg;base64,/9j/4AAQSkZJRg=='')) 1 =
     Some (ascii ''/9j/4AAQSkZJRg=='')"
  by (simp add: element_def ascii_def)

lemma captured_camera_state:
  "capturePhoto good_canvas False streaming_camera =
     \<lparr> cameraError = None, streamActive = False, isFlashing = True,
       capturedImage = Some (ascii ''data:image/jpeg;base64,/9j/4AAQSkZJRg==''),
       videoRef = Some \<lparr> srcObject = Some 0, videoWidth = 1920, videoHeight = 1080,
                         readyState = 4, onplaying = True, onloadedmetadata = True \<rparr>,
       canvasRef = Some \<lparr>canvas_width = 1920, canvas_height = 1080\<rparr>,
       streams = [[False]], pendingStarts = 0,
       getUserMedia_calls = [PREFERRED_CONSTRAINTS],
       onCapture_calls = [ascii ''/9j/4AAQSkZJRg==''] \<rparr>"
  by (simp add: streaming_camera_state capturePhoto_def capture_body_def good_canvas_def
      element_def ascii_def stopTracks_def fresh_canvas_def Let_def)

text \<open>
  A capture attempt in the Streaming phase with a 1920 by 1080 frame that produces no image:
  \<^verbatim>\<open>drawImage\<close> throws, \<^verbatim>\<open>onCapture\<close> is not called, no image is stored and the stream's
  track stays live.
\<close>

theorem capturePhoto_throw_counterexample:
  "rendered streaming_camera \<and> phase_of streaming_camera = Streaming
   \<and> \<not> frame_empty streaming_camera
   \<and> onCapture_calls (capturePhoto throwing_canvas False streaming_camera) = []
   \<and> capturedImage (capturePhoto throwing_canvas False streaming_camera) = None
   \<and> live_streams (capturePhoto throwing_canvas False streaming_camera) = [[True]]"
  by (simp add: streaming_camera_state rendered_def phase_of_def frame_empty_def
      capturePhoto_def capture_body_def throwing_canvas_def live_streams_def live_def Let_def)

text \<open>The same component with a canvas that works.\<close>

theorem capturePhoto_captures_witness:
  "rendered streaming_camera \<and> phase_of streaming_camera = Streaming
   \<and> onCapture_calls (capturePhoto good_canvas False streaming_camera) =
       [ascii ''/9j/4AAQSkZJRg=='']
   \<and> capturedImage (capturePhoto good_canvas False streaming_camera) =
       Some (ascii ''data:image/jpeg;base64,/9j/4AAQSkZJRg=='')
   \<and> live_streams (capturePhoto good_canvas False streaming_camera) = []
   \<and> phase_of (capturePhoto good_canvas False streaming_camera) = Captured"
proof -
  have r: "rendered streaming_camera" and p: "phase_of streaming_camera = Streaming"
    by (simp_all add: streaming_camera_state rendered_def phase_of_def)
  have v: "videoRef streaming_camera =
      Some \<lparr> srcObject = Some 0, videoWidth = 1920, videoHeight = 1080,
              readyState = 4, onplaying = True, onloadedmetadata = True \<rparr>"
    by (simp add: streaming_camera_state)
  have only: "\<forall>i<length (streams streaming_camera). live (streams streaming_camera ! i) \<longrightarrow> i = 0"
    by (simp add: streaming_camera_state)
  from capturePhoto_captures[OF r p _ v _ _ _ _ _ good_payload _ _ _ only,
      of False good_canvas]
  show ?thesis
    by (simp add: r p good_canvas_def ascii_def) (simp add: streaming_camera_state)
qed

text \<open>
  Two attempts that do nothing: one while the first request is pending, one on a stream
  that plays but has not delivered a frame with dimensions yet.
\<close>

theorem capturePhoto_noop_witness:
  "rendered (render (startCamera_begin (render initial_camera)))
   \<and> phase_of (render (startCamera_begin (render initial_camera))) = Requesting
   \<and> capturePhoto good_canvas False (render (startCamera_begin (render initial_camera))) =
       render (startCamera_begin (render initial_camera))
   \<and> rendered (video_playing (startCamera grant_all (render initial_camera)))
   \<and> phase_of (video_playing (startCamera grant_all (render initial_camera))) = Streaming
   \<and> frame_empty (video_playing (startCamera grant_all (render initial_camera)))
   \<and> capturePhoto good_canvas False (video_playing (startCamera grant_all (render initial_camera))) =
       video_playing (startCamera grant_all (render initial_camera))"
proof -
  let ?a = "render (startCamera_begin (render initial_camera))"
  let ?b = "video_playing (startCamera grant_all (render initial_camera))"
  have a: "rendered ?a" "phase_of ?a = Requesting"
    by (simp_all add: rendered_def phase_of_def render_def startCamera_begin_def
        initial_camera_def)
  have b: "rendered ?b" "phase_of ?b = Streaming" "frame_empty ?b"
    by (simp_all add: rendered_def phase_of_def frame_empty_def video_playing_def
        startCamera_def startCamera_end_def acquire_def request_stream_def attach_def render_def
        startCamera_begin_def initial_camera_def grant_all_def fresh_video_def
        handleVideoPlay_def Let_def)
  from capturePhoto_noop[of ?a False good_canvas] capturePhoto_noop[of ?b False good_canvas] a b
  show ?thesis by simp
qed

text \<open>A failed attempt on the streaming component, followed by one that succeeds.\<close>

theorem capturePhoto_render_failure_witness:
  "drawImage_throws throwing_canvas \<noteq> None
   \<and> capturePhoto throwing_canvas False streaming_camera =
       streaming_camera\<lparr>isFlashing := True,
         canvasRef := Some \<lparr>canvas_width = 1920, canvas_height = 1080\<rparr>\<rparr>
   \<and> phase_of (capturePhoto throwing_canvas False streaming_camera) = Streaming
   \<and> onCapture_calls (capturePhoto good_canvas False
         (capturePhoto throwing_canvas False streaming_camera)) = [ascii ''/9j/4AAQSkZJRg=='']"
proof -
  have v: "videoRef streaming_camera =
      Some \<lparr> srcObject = Some 0, videoWidth = 1920, videoHeight = 1080,
              readyState = 4, onplaying = True, onloadedmetadata = True \<rparr>"
    and c: "canvasRef streaming_camera = Some fresh_canvas"
    and a: "streamActive streaming_camera"
    and p: "phase_of streaming_camera = Streaming"
    by (simp_all add: streaming_camera_state phase_of_def)
  have t: "drawImage_throws throwing_canvas \<noteq> None \<or> (\<exists>e. toDataURL throwing_canvas = Inl e)"
    and t': "drawImage_throws throwing_canvas \<noteq> None"
    by (simp_all add: throwing_canvas_def)
  have again: "onCapture_calls (capturePhoto good_canvas False streaming_camera) =
      [ascii ''/9j/4AAQSkZJRg=='']"
    by (simp add: captured_camera_state)
  note w = capturePhoto_render_failure[OF _ v c a _ _ t, of False good_canvas, simplified]
  from w have e1: "capturePhoto throwing_canvas False streaming_camera =
       streaming_camera\<lparr>isFlashing := True,
         canvasRef := Some (fresh_canvas\<lparr>canvas_width := 1920, canvas_height := 1080\<rparr>)\<rparr>"
    by blast
  from w have e2: "phase_of (capturePhoto throwing_canvas False streaming_camera) =
       phase_of streaming_camera"
    by blast
  from w have e3: "capturePhoto good_canvas False
       (capturePhoto throwing_canvas False streaming_camera) =
       capturePhoto good_canvas False streaming_camera"
    by blast
  have e1': "capturePhoto throwing_canvas False streaming_camera =
       streaming_camera\<lparr>isFlashing := True,
         canvasRef := Some \<lparr>canvas_width = 1920, canvas_height = 1080\<rparr>\<rparr>"
    unfolding e1 by (simp add: fresh_canvas_def)
  show ?thesis
  proof (intro conjI)
    show "drawImage_throws throwing_canvas \<noteq> None" by (rule t')
    show "capturePhoto throwing_canvas False streaming_camera =
       streaming_camera\<lparr>isFlashing := True,
         canvasRef := Some \<lparr>canvas_width = 1920, canvas_height = 1080\<rparr>\<rparr>"
      by (rule e1')
    show "phase_of (capturePhoto throwing_canvas False streaming_camera) = Streaming"
      by (simp only: e2 p)
    show "onCapture_calls (capturePhoto good_canvas False
         (capturePhoto throwing_canvas False streaming_camera)) = [ascii ''/9j/4AAQSkZJRg=='']"
      by (simp only: e3 again)
  qed
qed

text \<open>
  \<open>startCamera\<close> called on the streaming component is no no-op: the device is asked again,
  and two streams are live afterwards, the first no longer referenced by the element.
\<close>

theorem startCamera_while_streaming_counterexample:
  "phase_of streaming_camera = Streaming
   \<and> live_streams streaming_camera = [[True]]
   \<and> live_streams (startCamera grant_all streaming_camera) = [[True], [True]]
   \<and> getUserMedia_calls (startCamera grant_all streaming_camera) =
       [PREFERRED_CONSTRAINTS, PREFERRED_CONSTRAINTS]
   \<and> startCamera grant_all streaming_camera \<noteq> streaming_camera"
proof -
  have s: "streams (startCamera grant_all streaming_camera) = [[True], [True]]"
    unfolding streams_startCamera by (simp add: grant_all_def streaming_camera_state)
  have c: "getUserMedia_calls (startCamera grant_all streaming_camera) =
       [PREFERRED_CONSTRAINTS, PREFERRED_CONSTRAINTS]"
    unfolding calls_startCamera by (simp add: grant_all_def streaming_camera_state)
  have s0: "streams streaming_camera = [[True]]" and p: "phase_of streaming_camera = Streaming"
    by (simp_all add: streaming_camera_state phase_of_def)
  have "streams (startCamera grant_all streaming_camera) \<noteq> streams streaming_camera"
    by (simp only: s s0) simp
  then have ne: "startCamera grant_all streaming_camera \<noteq> streaming_camera"
    by auto
  show ?thesis
    using ne c p by (simp add: live_streams_def s s0 live_def)
qed

text \<open>The streaming component is the component after the first six events of its life.\<close>

lemma streaming_by_events:
  "fold camera_step (take 6 capture_and_restart) initial_camera = streaming_camera"
  by code_simp

text \<open>
  Two calls that overlap, the second made while the first is suspended and no stream is
  live yet, end with two live streams.
\<close>

lemma overlapping_starts_two_live:
  "\<not> calls_apart overlapping_starts initial_camera
   \<and> live_streams (fold camera_step (take 3 overlapping_starts) initial_camera) = []
   \<and> phase_of (fold camera_step (take 3 overlapping_starts) initial_camera) = Requesting
   \<and> live_streams (fold camera_step overlapping_starts initial_camera) = [[True], [True]]"
  by code_simp

text \<open>
  A capture and a restart with the calls apart: after the capture the phase is Captured
  and no stream is live; after the restart one stream is live, the new one.
\<close>

theorem startCamera_unguarded_witness:
  "pendingStarts initial_camera + length (live_streams initial_camera) \<le> 1
   \<and> calls_apart capture_and_restart initial_camera
   \<and> phase_of (fold camera_step (take 8 capture_and_restart) initial_camera) = Captured
   \<and> live_streams (fold camera_step (take 8 capture_and_restart) initial_camera) = []
   \<and> length (live_streams (fold camera_step (take 14 capture_and_restart) initial_camera)) \<le> 1
   \<and> live_streams (fold camera_step capture_and_restart initial_camera) = [[True]]"
proof -
  have one: "pendingStarts initial_camera + length (live_streams initial_camera) \<le> 1"
    by code_simp
  have apart: "calls_apart capture_and_restart initial_camera"
    by code_simp
  have captured: "phase_of (fold camera_step (take 8 capture_and_restart) initial_camera) = Captured"
    "live_streams (fold camera_step (take 8 capture_and_restart) initial_camera) = []"
    by code_simp+
  have final: "live_streams (fold camera_step capture_and_restart initial_camera) = [[True]]"
    by code_simp
  from startCamera_unguarded[of initial_camera capture_and_restart] one apart
  have "length (live_streams (fold camera_step (take 14 capture_and_restart) initial_camera)) \<le> 1"
    by blast
  with one apart captured final show ?thesis by (intro conjI)
qed

end
